theory Spec2Isabelle
  imports Main
begin

section \<open>Values, rows and data frames\<close>

text \<open>
  The program (\<^verbatim>\<open>src/main.py\<close>) keeps every dataset in one SQLite table \<^verbatim>\<open>issues\<close> and
  moves it in and out of pandas data frames. A cell is a Python/SQLite value: \<^verbatim>\<open>None\<close>
  (SQL \<^verbatim>\<open>NULL\<close>, pandas \<^verbatim>\<open>NaN\<close>), a string, or an integer; floating-point and date cells
  are left out. A row binds column names to cells; a data frame is its ordered column
  list and its ordered rows.
\<close>

datatype cell = Null | Text string | Integer int

type_synonym row = "string \<rightharpoonup> cell"

record dataframe =
  columns :: "string list"
  rows :: "row list"

text \<open>\<^verbatim>\<open>pd.isna\<close> / \<^verbatim>\<open>pd.notna\<close> on a scalar.\<close>

fun isna :: "cell \<Rightarrow> bool" where
  "isna Null = True"
| "isna (Text s) = False"
| "isna (Integer i) = False"



section \<open>Python strings\<close>







text \<open>\<^verbatim>\<open>sep.join(xs)\<close>.\<close>

fun join :: "string \<Rightarrow> string list \<Rightarrow> string" where
  "join sep [] = []"
| "join sep [x] = x"
| "join sep (x # y # ys) = x @ sep @ join sep (y # ys)"


section \<open>Export: the combined proposed tags (lines 509-515)\<close>







section \<open>The SQLite files under the temp folder\<close>

text \<open>
  A database file either has no \<^verbatim>\<open>issues\<close> table (what \<^verbatim>\<open>sqlite3.connect\<close> leaves when it
  creates a file) or holds the table. The file system maps a path to its file; it holds
  the database files only, not the folder. Column names are compared exactly, as pandas
  does (SQLite's case-insensitive matching of identifiers is not modelled); the table
  keeps its rows in insertion order, which is the order \<^verbatim>\<open>SELECT *\<close> returns them in.
  Failures of the storage itself (a locked or corrupt file) are not modelled.
\<close>

datatype dbfile = EmptyDb | Issues dataframe

type_synonym filesystem = "string \<rightharpoonup> dbfile"

datatype error = OperationalError | DatabaseError | KeyError | FileNotFoundError

definition TEMP_FOLDER :: string where
  "TEMP_FOLDER = ''temp''"

definition REQUIRED_COLUMNS :: "string list" where
  "REQUIRED_COLUMNS =
     [''source'', ''Issue'', ''StakeholderTypeArray'', ''WorksheetLabelArray'',
      ''IssueTag1'', ''IssueTag2'', ''IssueTag3'', ''IssueTag4'',
      ''IssueTag5'', ''IssueTag6'', ''IssueTag7'', ''IssueTag8'']"

text \<open>\<^verbatim>\<open>os.path.join(a, b)\<close> on POSIX: an absolute second component replaces the first.\<close>

definition os_path_join :: "string \<Rightarrow> string \<Rightarrow> string" where
  "os_path_join a b =
     (if b \<noteq> [] \<and> hd b = CHR ''/'' then b
      else if a = [] \<or> last a = CHR ''/'' then a @ b
      else a @ ''/'' @ b)"

definition get_db_path :: "string \<Rightarrow> string" where
  "get_db_path filename = os_path_join TEMP_FOLDER filename"

definition os_path_exists :: "filesystem \<Rightarrow> string \<Rightarrow> bool" where
  "os_path_exists fs p = (fs p \<noteq> None)"

text \<open>\<^verbatim>\<open>sqlite3.connect(path)\<close> creates an empty database file when the path has none.\<close>

definition connect :: "filesystem \<Rightarrow> string \<Rightarrow> filesystem" where
  "connect fs p = (case fs p of None \<Rightarrow> fs(p \<mapsto> EmptyDb) | Some f \<Rightarrow> fs)"


section \<open>Record store: schema check (lines 39-49)\<close>

text \<open>\<^verbatim>\<open>ALTER TABLE issues ADD COLUMN c TEXT\<close>: a new last column, null in every row.\<close>

definition add_column :: "string \<Rightarrow> dataframe \<Rightarrow> dataframe" where
  "add_column c t = \<lparr>columns = columns t @ [c], rows = map (\<lambda>r. r(c \<mapsto> Null)) (rows t)\<rparr>"

text \<open>
  The \<^verbatim>\<open>SELECT review_date\<close> probe raises \<^verbatim>\<open>OperationalError\<close> when the column or the table
  is missing; the handler then runs the \<^verbatim>\<open>ALTER TABLE\<close>, which raises again (out of the
  function) when there is no table.
\<close>

definition ensure_schema_compatibility :: "filesystem \<Rightarrow> string \<Rightarrow> filesystem \<times> (error + unit)" where
  "ensure_schema_compatibility fs db_path =
     (let fs1 = connect fs db_path in
      case fs1 db_path of
        Some (Issues t) \<Rightarrow>
          if ''review_date'' \<in> set (columns t) then (fs1, Inr ())
          else (fs1(db_path \<mapsto> Issues (add_column ''review_date'' t)), Inr ())
      | _ \<Rightarrow> (fs1, Inl OperationalError))"

section \<open>Record store: create (lines 51-70)\<close>

text \<open>
  \<^verbatim>\<open>df[c] = values\<close> replaces the column \<open>c\<close> in place or appends it as the last column;
  \<open>f i\<close> is the value for the row at position \<open>i\<close>. \<^verbatim>\<open>df[c] = v\<close> with a scalar gives
  every row the same value.
\<close>

definition assign_column :: "string \<Rightarrow> (nat \<Rightarrow> cell) \<Rightarrow> dataframe \<Rightarrow> dataframe" where
  "assign_column c f df =
     \<lparr>columns = (if c \<in> set (columns df) then columns df else columns df @ [c]),
      rows = map (\<lambda>i. (rows df ! i)(c \<mapsto> f i)) [0..<length (rows df)]\<rparr>"

definition assign_scalar :: "string \<Rightarrow> cell \<Rightarrow> dataframe \<Rightarrow> dataframe" where
  "assign_scalar c v df =
     \<lparr>columns = (if c \<in> set (columns df) then columns df else columns df @ [c]),
      rows = map (\<lambda>r. r(c \<mapsto> v)) (rows df)\<rparr>"

text \<open>The loop of lines 64-66 over \<^verbatim>\<open>REQUIRED_COLUMNS\<close>.\<close>

fun ensure_required :: "string list \<Rightarrow> dataframe \<Rightarrow> dataframe" where
  "ensure_required [] df = df"
| "ensure_required (col # cols) df =
     ensure_required cols (if col \<notin> set (columns df) then assign_scalar col Null df else df)"

text \<open>
  \<^verbatim>\<open>init_db(df, filename)\<close>: \<^verbatim>\<open>record_id = range(1, len(df) + 1)\<close> and the three review
  columns (\<open>review_frame\<close>, lines 56-61), the required columns (\<open>prepare_frame\<close>, lines
  64-66), then \<^verbatim>\<open>to_sql('issues', if_exists='replace')\<close>. The function returns \<^verbatim>\<open>None\<close>;
  the model returns the file system it leaves.
\<close>

definition review_frame :: "dataframe \<Rightarrow> dataframe" where
  "review_frame df =
     (let df1 = assign_column ''record_id'' (\<lambda>i. Integer (int i + 1)) df;
          df2 = assign_scalar ''reviewed_tags'' Null df1;
          df3 = assign_scalar ''tagging_notes'' (Text []) df2;
          df4 = assign_scalar ''review_date'' Null df3
      in df4)"

definition prepare_frame :: "dataframe \<Rightarrow> dataframe" where
  "prepare_frame df = ensure_required REQUIRED_COLUMNS (review_frame df)"

definition init_db :: "filesystem \<Rightarrow> dataframe \<Rightarrow> string \<Rightarrow> filesystem" where
  "init_db fs df filename =
     (let db_path = get_db_path filename;
          fs1 = connect fs db_path
      in fs1(db_path \<mapsto> Issues (prepare_frame df)))"

section \<open>Record store: filtered read (lines 72-95)\<close>

text \<open>
  A filter argument is \<^verbatim>\<open>None\<close> or a string. The test
  \<^verbatim>\<open>if filter_source and filter_source != "All"\<close> appends a condition and a parameter
  only for a non-empty string other than \<^verbatim>\<open>"All"\<close>.
\<close>

fun filter_param :: "string option \<Rightarrow> string option" where
  "filter_param None = None"
| "filter_param (Some s) = (if s \<noteq> [] \<and> s \<noteq> ''All'' then Some s else None)"

definition where_conditions :: "string option \<Rightarrow> string option \<Rightarrow> (string \<times> string) list" where
  "where_conditions filter_source filter_label =
     (case filter_param filter_source of None \<Rightarrow> [] | Some v \<Rightarrow> [(''source'', v)])
     @ (case filter_param filter_label of None \<Rightarrow> [] | Some v \<Rightarrow> [(''WorksheetLabelArray'', v)])"

text \<open>
  \<^verbatim>\<open>SELECT * FROM issues WHERE 1=1 AND c1 = ? AND ...\<close>: an unknown column is an error
  (pandas raises \<^verbatim>\<open>DatabaseError\<close>); a row passes when each named cell is the text of
  its parameter. A null cell equals nothing. The parameters are strings and the two
  filter columns hold text; an integer cell is taken to equal no string (the conversions
  SQLite applies to a column of numeric affinity are not modelled).
\<close>

definition sql_select_where :: "dataframe \<Rightarrow> (string \<times> string) list \<Rightarrow> error + dataframe" where
  "sql_select_where t conds =
     (if list_all (\<lambda>(c, v). c \<in> set (columns t)) conds
      then Inr \<lparr>columns = columns t,
                rows = filter (\<lambda>r. list_all (\<lambda>(c, v). r c = Some (Text v)) conds) (rows t)\<rparr>
      else Inl DatabaseError)"

definition load_data_from_db ::
  "filesystem \<Rightarrow> string \<Rightarrow> string option \<Rightarrow> string option \<Rightarrow> filesystem \<times> (error + dataframe)" where
  "load_data_from_db fs filename filter_source filter_label =
     (let db_path = get_db_path filename in
      if \<not> os_path_exists fs db_path then (fs, Inr \<lparr>columns = [], rows = []\<rparr>)
      else
        case ensure_schema_compatibility fs db_path of
          (fs1, Inl e) \<Rightarrow> (fs1, Inl e)
        | (fs1, Inr u) \<Rightarrow>
            (let fs2 = connect fs1 db_path in
             case fs2 db_path of
               Some (Issues t) \<Rightarrow> (fs2, sql_select_where t (where_conditions filter_source filter_label))
             | _ \<Rightarrow> (fs2, Inl DatabaseError)))"

section \<open>Record store: update (lines 97-112)\<close>

text \<open>
  The \<^verbatim>\<open>UPDATE ... WHERE record_id = ?\<close> statement: the new table and the cursor's
  \<^verbatim>\<open>rowcount\<close>. \<open>now\<close> is \<^verbatim>\<open>datetime.now().isoformat()\<close>.
\<close>

definition sql_update_issues ::
  "dataframe \<Rightarrow> cell \<Rightarrow> cell \<Rightarrow> string \<Rightarrow> int \<Rightarrow> dataframe \<times> nat" where
  "sql_update_issues t reviewed_tags tagging_notes now record_id =
     (\<lparr>columns = columns t,
       rows = map (\<lambda>r. if r ''record_id'' = Some (Integer record_id)
                       then r(''reviewed_tags'' \<mapsto> reviewed_tags, ''tagging_notes'' \<mapsto> tagging_notes,
                              ''review_date'' \<mapsto> Text now)
                       else r) (rows t)\<rparr>,
      length (filter (\<lambda>r. r ''record_id'' = Some (Integer record_id)) (rows t)))"

definition update_columns :: "string list" where
  "update_columns = [''reviewed_tags'', ''tagging_notes'', ''review_date'', ''record_id'']"

text \<open>
  \<^verbatim>\<open>update_record\<close> never reads \<^verbatim>\<open>cursor.rowcount\<close> and has no \<^verbatim>\<open>return\<close>: its value is
  \<^verbatim>\<open>None\<close> unless the statement raises (no table, or a column of the statement missing).
\<close>

definition update_record ::
  "filesystem \<Rightarrow> string \<Rightarrow> int \<Rightarrow> cell \<Rightarrow> cell \<Rightarrow> string \<Rightarrow> filesystem \<times> (error + unit)" where
  "update_record fs filename record_id reviewed_tags tagging_notes now =
     (let db_path = get_db_path filename;
          fs1 = connect fs db_path
      in case fs1 db_path of
           Some (Issues t) \<Rightarrow>
             if set update_columns \<subseteq> set (columns t)
             then (let (t', rowcount) = sql_update_issues t reviewed_tags tagging_notes now record_id
                   in (fs1(db_path \<mapsto> Issues t'), Inr ()))
             else (fs1, Inl OperationalError)
         | _ \<Rightarrow> (fs1, Inl OperationalError))"

section \<open>Histories of one dataset\<close>

text \<open>
  The record-store operations the program runs on a dataset after creating it: the
  filtered read, the update and the schema check.
\<close>

datatype operation =
    Query "string option" "string option"
  | Update int cell cell string
  | Migrate

fun apply_operation :: "string \<Rightarrow> filesystem \<Rightarrow> operation \<Rightarrow> filesystem" where
  "apply_operation filename fs (Query a b) = fst (load_data_from_db fs filename a b)"
| "apply_operation filename fs (Update i tags notes now) =
     fst (update_record fs filename i tags notes now)"
| "apply_operation filename fs Migrate =
     fst (ensure_schema_compatibility fs (get_db_path filename))"

definition run :: "string \<Rightarrow> operation list \<Rightarrow> filesystem \<Rightarrow> filesystem" where
  "run filename ops fs = foldl (apply_operation filename) fs ops"

fun updated_id :: "operation \<Rightarrow> int option" where
  "updated_id (Update i tags notes now) = Some i"
| "updated_id (Query a b) = None"
| "updated_id Migrate = None"

definition confirmed :: "operation list \<Rightarrow> int \<Rightarrow> bool" where
  "confirmed ops i = (Some i \<in> set (map updated_id ops))"

section \<open>Review navigator: next unreviewed (lines 307-317)\<close>

text \<open>
  The \<^verbatim>\<open>for i in range(nav_index + 1, len(df_filtered))\<close> loop with its \<^verbatim>\<open>break\<close>:
  \<^verbatim>\<open>df_filtered.iloc[i]['review_date']\<close> raises \<^verbatim>\<open>KeyError\<close> on a frame without the
  column. The result is the new \<^verbatim>\<open>nav_index\<close> and the \<^verbatim>\<open>st.info\<close> text, if one is shown.
\<close>

function next_unreviewed_scan :: "dataframe \<Rightarrow> nat \<Rightarrow> error + nat option" where
  "next_unreviewed_scan df i =
     (if i < length (rows df)
      then (case (rows df ! i) ''review_date'' of
              None \<Rightarrow> Inl KeyError
            | Some val \<Rightarrow> if isna val then Inr (Some i) else next_unreviewed_scan df (Suc i))
      else Inr None)"
  by pat_completeness auto
termination
  by (relation "measure (\<lambda>(df, i). length (rows df) - i)") auto

definition next_unreviewed :: "dataframe \<Rightarrow> nat \<Rightarrow> error + (nat \<times> string option)" where
  "next_unreviewed df_filtered nav_index =
     (case next_unreviewed_scan df_filtered (nav_index + 1) of
        Inl e \<Rightarrow> Inl e
      | Inr (Some i) \<Rightarrow> Inr (i, None)
      | Inr None \<Rightarrow> Inr (nav_index, Some ''No more unreviewed records found below this point.''))"

section \<open>Dataset catalog: rename (lines 191-196, 213-237)\<close>

datatype notice =
    St_error string
  | St_exception string error
  | St_success string




section \<open>Import of an uploaded sheet (lines 151-179)\<close>

text \<open>\<^verbatim>\<open>s.replace(sub, "")\<close>: every occurrence of \<open>sub\<close> removed, left to right.\<close>

function remove_all :: "string \<Rightarrow> string \<Rightarrow> string" where
  "remove_all sub s =
     (if sub = [] \<or> s = [] then s
      else if take (length sub) s = sub then remove_all sub (drop (length sub) s)
      else hd s # remove_all sub (tl s))"
  by pat_completeness auto
termination
  by (relation "measure (\<lambda>(sub, s). length s)") auto

definition missing_cols :: "dataframe \<Rightarrow> string list" where
  "missing_cols df_preview = filter (\<lambda>c. c \<notin> set (columns df_preview)) REQUIRED_COLUMNS"

text \<open>
  The upload handler once a sheet is read: \<open>pressed\<close> is the "Import to Database"
  button, \<open>timestamp\<close> is \<^verbatim>\<open>datetime.now().strftime("%Y%m%d_%H%M%S")\<close>. The result is the
  file system and the message shown, if any.
\<close>

definition import_upload ::
  "filesystem \<Rightarrow> string \<Rightarrow> dataframe \<Rightarrow> bool \<Rightarrow> string \<Rightarrow> filesystem \<times> notice option" where
  "import_upload fs uploaded_name df_preview pressed timestamp =
     (if missing_cols df_preview \<noteq> []
      then (fs, Some (St_error (''Missing columns: '' @ join '', '' (missing_cols df_preview))))
      else if pressed
      then (let clean_name = remove_all ''.xlsx'' uploaded_name;
                db_filename = clean_name @ ''_'' @ timestamp @ ''.db''
            in (init_db fs df_preview db_filename,
                Some (St_success (''Database created: '' @ db_filename))))
      else (fs, None))"

section \<open>The shape of a created dataset\<close>

text \<open>
  What holds of the table of a dataset of \<open>n\<close> rows at every point of its history: the
  columns the statements name are there, the row at position \<open>k\<close> has \<^verbatim>\<open>record_id\<close>
  \<open>k + 1\<close>, and its \<^verbatim>\<open>review_date\<close> cell is there and is null exactly when \<open>conf\<close> does not
  hold of its id.
\<close>

definition dataset_invariant :: "nat \<Rightarrow> (int \<Rightarrow> bool) \<Rightarrow> dataframe \<Rightarrow> bool" where
  "dataset_invariant n conf t =
     (set update_columns \<subseteq> set (columns t)
      \<and> ''source'' \<in> set (columns t) \<and> ''WorksheetLabelArray'' \<in> set (columns t)
      \<and> length (rows t) = n
      \<and> (\<forall>k<n. (rows t ! k) ''record_id'' = Some (Integer (int k + 1))
               \<and> (rows t ! k) ''review_date'' \<noteq> None
               \<and> ((rows t ! k) ''review_date'' = Some Null) = (\<not> conf (int k + 1))))"

section \<open>Sample data\<close>

text \<open>Concrete inputs on which the theorems below are instantiated.\<close>

definition sample_row :: "string \<Rightarrow> string \<Rightarrow> row" where
  "sample_row src lbl =
     [''source'' \<mapsto> Text src, ''Issue'' \<mapsto> Text ''Fees are too high'',
      ''StakeholderTypeArray'' \<mapsto> Text ''Industry'', ''WorksheetLabelArray'' \<mapsto> Text lbl,
      ''IssueTag1'' \<mapsto> Text ''Access'', ''IssueTag2'' \<mapsto> Null, ''IssueTag3'' \<mapsto> Text ''Evidence'',
      ''IssueTag4'' \<mapsto> Null, ''IssueTag5'' \<mapsto> Null, ''IssueTag6'' \<mapsto> Null,
      ''IssueTag7'' \<mapsto> Null, ''IssueTag8'' \<mapsto> Null]"

definition sample_frame :: dataframe where
  "sample_frame =
     \<lparr>columns = REQUIRED_COLUMNS,
      rows = [sample_row ''All'' ''Sheet1'', sample_row ''Email'' ''Sheet2'']\<rparr>"

definition sample_fs :: filesystem where
  "sample_fs = init_db Map.empty sample_frame ''demo.db''"


definition short_frame :: dataframe where
  "short_frame =
     \<lparr>columns = [''source'', ''Issue'', ''IssueTag1''],
      rows = [[''source'' \<mapsto> Text ''Email'', ''Issue'' \<mapsto> Text ''Fees'', ''IssueTag1'' \<mapsto> Null]]\<rparr>"




definition review_view :: dataframe where
  "review_view =
     \<lparr>columns = [''record_id'', ''review_date''],
      rows = [[''record_id'' \<mapsto> Integer 1, ''review_date'' \<mapsto> Null],
              [''record_id'' \<mapsto> Integer 2, ''review_date'' \<mapsto> Null],
              [''record_id'' \<mapsto> Integer 3, ''review_date'' \<mapsto> Text ''2025-03-01T10:00:00''],
              [''record_id'' \<mapsto> Integer 4, ''review_date'' \<mapsto> Text ''2025-03-01T10:01:00''],
              [''record_id'' \<mapsto> Integer 5, ''review_date'' \<mapsto> Null]]\<rparr>"

section \<open>Helper lemmas\<close>

lemma connect_existing: "fs p = Some f \<Longrightarrow> connect fs p = fs"
  by (simp add: connect_def)

lemma ensure_on_table:
  "fs p = Some (Issues t) \<Longrightarrow>
   ensure_schema_compatibility fs p =
     (if ''review_date'' \<in> set (columns t) then (fs, Inr ())
      else (fs(p \<mapsto> Issues (add_column ''review_date'' t)), Inr ()))"
  by (simp add: ensure_schema_compatibility_def connect_existing)



lemma where_conditions_All:
  "where_conditions (Some ''All'') b = where_conditions None b"
  "where_conditions (Some []) b = where_conditions None b"
  "where_conditions a (Some ''All'') = where_conditions a None"
  "where_conditions a (Some []) = where_conditions a None"
  by (simp_all add: where_conditions_def)

lemma load_depends_on_conditions:
  "where_conditions a b = where_conditions a' b' \<Longrightarrow>
   load_data_from_db fs filename a b = load_data_from_db fs filename a' b'"
  by (simp only: load_data_from_db_def)

lemma filter_param_Some: "filter_param a = Some v \<Longrightarrow> a = Some v \<and> v \<noteq> [] \<and> v \<noteq> ''All''"
  by (cases a) (auto split: if_splits)

lemma load_result_rows:
  assumes "load_data_from_db fs filename a b = (fs', Inr out)" and "r \<in> set (rows out)"
  shows "list_all (\<lambda>(c, v). r c = Some (Text v)) (where_conditions a b)"
  using assms
  by (auto simp: load_data_from_db_def sql_select_where_def Let_def
      split: if_splits prod.splits sum.splits option.splits dbfile.splits)


lemma update_record_on_table:
  "fs (get_db_path filename) = Some (Issues t) \<Longrightarrow> set update_columns \<subseteq> set (columns t) \<Longrightarrow>
   update_record fs filename rid tags notes now =
     (fs(get_db_path filename \<mapsto> Issues (fst (sql_update_issues t tags notes now rid))), Inr ())"
  by (simp add: update_record_def connect_existing Let_def split: prod.splits)

lemma assign_scalar_simps:
  "columns (assign_scalar c v df) = (if c \<in> set (columns df) then columns df else columns df @ [c])"
  "length (rows (assign_scalar c v df)) = length (rows df)"
  "k < length (rows df) \<Longrightarrow> rows (assign_scalar c v df) ! k = (rows df ! k)(c \<mapsto> v)"
  by (simp_all add: assign_scalar_def)

lemma assign_column_simps:
  "columns (assign_column c f df) = (if c \<in> set (columns df) then columns df else columns df @ [c])"
  "length (rows (assign_column c f df)) = length (rows df)"
  "k < length (rows df) \<Longrightarrow> rows (assign_column c f df) ! k = (rows df ! k)(c \<mapsto> f k)"
  by (simp_all add: assign_column_def)

lemma ensure_required_length: "length (rows (ensure_required cols df)) = length (rows df)"
  by (induction cols arbitrary: df) (simp_all add: assign_scalar_simps)

lemma ensure_required_columns:
  "set (columns (ensure_required cols df)) = set (columns df) \<union> set cols"
  by (induction cols arbitrary: df) (auto simp: assign_scalar_simps)

lemma ensure_required_keeps:
  "c \<in> set (columns df) \<Longrightarrow> k < length (rows df) \<Longrightarrow>
   (rows (ensure_required cols df) ! k) c = (rows df ! k) c"
proof (induction cols arbitrary: df)
  case Nil
  show ?case by simp
next
  case (Cons col cols)
  show ?case
  proof (cases "col \<in> set (columns df)")
    case True
    with Cons show ?thesis by simp
  next
    case False
    with Cons.prems have ne: "c \<noteq> col" by auto
    have "(rows (ensure_required cols (assign_scalar col Null df)) ! k) c
            = (rows (assign_scalar col Null df) ! k) c"
      using Cons.prems by (intro Cons.IH) (simp_all add: assign_scalar_simps)
    with False ne Cons.prems show ?thesis by (simp add: assign_scalar_simps)
  qed
qed

lemma review_frame_length: "length (rows (review_frame df)) = length (rows df)"
  by (simp add: review_frame_def Let_def assign_scalar_simps assign_column_simps)

lemma review_frame_columns:
  "set (columns (review_frame df)) =
     set (columns df) \<union> {''record_id'', ''reviewed_tags'', ''tagging_notes'', ''review_date''}"
  by (auto simp: review_frame_def Let_def assign_scalar_simps assign_column_simps)

lemma review_frame_row:
  assumes "k < length (rows df)"
  shows "rows (review_frame df) ! k =
           (rows df ! k)(''record_id'' \<mapsto> Integer (int k + 1), ''reviewed_tags'' \<mapsto> Null,
                         ''tagging_notes'' \<mapsto> Text [], ''review_date'' \<mapsto> Null)"
  using assms by (simp add: review_frame_def Let_def assign_scalar_simps assign_column_simps)

lemma prepare_frame_length: "length (rows (prepare_frame df)) = length (rows df)"
  by (simp add: prepare_frame_def ensure_required_length review_frame_length)

lemma prepare_frame_columns:
  "set (columns (prepare_frame df)) =
     set (columns df) \<union> {''record_id'', ''reviewed_tags'', ''tagging_notes'', ''review_date''}
       \<union> set REQUIRED_COLUMNS"
  by (simp add: prepare_frame_def ensure_required_columns review_frame_columns)

lemma prepare_frame_review_cells:
  assumes "k < length (rows df)"
  shows "(rows (prepare_frame df) ! k) ''record_id'' = Some (Integer (int k + 1))"
    and "(rows (prepare_frame df) ! k) ''reviewed_tags'' = Some Null"
    and "(rows (prepare_frame df) ! k) ''tagging_notes'' = Some (Text [])"
    and "(rows (prepare_frame df) ! k) ''review_date'' = Some Null"
  using assms
  by (simp_all add: prepare_frame_def ensure_required_keeps review_frame_columns
      review_frame_length review_frame_row)

lemma prepare_frame_input_cells:
  assumes "k < length (rows df)" and "c \<in> set (columns df)"
    and "c \<notin> {''record_id'', ''reviewed_tags'', ''tagging_notes'', ''review_date''}"
  shows "(rows (prepare_frame df) ! k) c = (rows df ! k) c"
  using assms
  by (simp add: prepare_frame_def ensure_required_keeps review_frame_columns
      review_frame_length review_frame_row)

lemma init_db_at: "init_db fs df filename (get_db_path filename) = Some (Issues (prepare_frame df))"
  by (simp add: init_db_def Let_def)

lemma load_on_table:
  assumes "fs (get_db_path filename) = Some (Issues t)"
    and "''review_date'' \<in> set (columns t)"
    and "''source'' \<in> set (columns t)" and "''WorksheetLabelArray'' \<in> set (columns t)"
  shows "load_data_from_db fs filename a b =
           (fs, Inr \<lparr>columns = columns t,
                     rows = filter (\<lambda>r. list_all (\<lambda>(c, v). r c = Some (Text v)) (where_conditions a b))
                              (rows t)\<rparr>)"
proof -
  have "list_all (\<lambda>(c, v). c \<in> set (columns t)) (where_conditions a b)"
    using assms(3,4) by (simp add: where_conditions_def split: option.splits)
  then show ?thesis
    using assms(1,2)
    by (simp add: load_data_from_db_def os_path_exists_def ensure_on_table connect_existing
        sql_select_where_def Let_def)
qed

lemma REQUIRED_COLUMNS_not_review:
  "c \<in> set REQUIRED_COLUMNS \<Longrightarrow>
   c \<notin> {''record_id'', ''reviewed_tags'', ''tagging_notes'', ''review_date''}"
  by (auto simp: REQUIRED_COLUMNS_def)

lemma isna_iff: "isna v = (v = Null)"
  by (cases v) simp_all

lemma next_unreviewed_scan_spec:
  assumes "\<forall>r\<in>set (rows df). r ''review_date'' \<noteq> None"
  shows "(\<exists>j. next_unreviewed_scan df s = Inr (Some j) \<and> s \<le> j \<and> j < length (rows df)
              \<and> (rows df ! j) ''review_date'' = Some Null
              \<and> (\<forall>k. s \<le> k \<and> k < j \<longrightarrow> (rows df ! k) ''review_date'' \<noteq> Some Null))
         \<or> (next_unreviewed_scan df s = Inr None
              \<and> (\<forall>k. s \<le> k \<and> k < length (rows df) \<longrightarrow> (rows df ! k) ''review_date'' \<noteq> Some Null))"
  using assms
proof (induction df s rule: next_unreviewed_scan.induct)
  case (1 df i)
  show ?case
  proof (cases "i < length (rows df)")
    case False
    then show ?thesis by (auto simp: next_unreviewed_scan.simps [of df i])
  next
    case True
    then have "rows df ! i \<in> set (rows df)" by simp
    with "1.prems" obtain val where val: "(rows df ! i) ''review_date'' = Some val" by blast
    show ?thesis
    proof (cases "isna val")
      case True
      with val \<open>i < length (rows df)\<close> have "next_unreviewed_scan df i = Inr (Some i)"
        by (simp add: next_unreviewed_scan.simps [of df i])
      moreover from True val have "(rows df ! i) ''review_date'' = Some Null"
        by (simp add: isna_iff)
      ultimately show ?thesis using \<open>i < length (rows df)\<close> by auto
    next
      case False
      with val True have step: "next_unreviewed_scan df i = next_unreviewed_scan df (Suc i)"
        by (simp add: next_unreviewed_scan.simps [of df i])
      from False val have here: "(rows df ! i) ''review_date'' \<noteq> Some Null"
        by (simp add: isna_iff)
      have below: "(rows df ! k) ''review_date'' \<noteq> Some Null"
        if "i \<le> k" "k < j" "\<forall>k. Suc i \<le> k \<and> k < j \<longrightarrow> (rows df ! k) ''review_date'' \<noteq> Some Null"
        for k j
        using that here by (cases "k = i") auto
      from "1.IH" [OF True val False "1.prems"] show ?thesis
        unfolding step using below by (metis Suc_leD)
    qed
  qed
qed


lemma sql_update_simps:
  "columns (fst (sql_update_issues t tags memo now rid)) = columns t"
  "length (rows (fst (sql_update_issues t tags memo now rid))) = length (rows t)"
  "k < length (rows t) \<Longrightarrow>
   rows (fst (sql_update_issues t tags memo now rid)) ! k =
     (if (rows t ! k) ''record_id'' = Some (Integer rid)
      then (rows t ! k)(''reviewed_tags'' \<mapsto> tags, ''tagging_notes'' \<mapsto> memo, ''review_date'' \<mapsto> Text now)
      else rows t ! k)"
  by (simp_all add: sql_update_issues_def)

lemma dataset_invariant_created:
  "dataset_invariant (length (rows df)) (\<lambda>i. False) (prepare_frame df)"
  by (simp add: dataset_invariant_def prepare_frame_columns prepare_frame_length
      prepare_frame_review_cells update_columns_def REQUIRED_COLUMNS_def)

lemma dataset_invariant_update:
  assumes "dataset_invariant n conf t"
  shows "dataset_invariant n (\<lambda>i. conf i \<or> i = rid) (fst (sql_update_issues t tags memo now rid))"
  using assms
  by (auto simp: dataset_invariant_def sql_update_simps)

lemma invariant_read_only:
  assumes "fs (get_db_path filename) = Some (Issues t)" and "dataset_invariant n conf t"
  shows "load_data_from_db fs filename a b =
           (fs, Inr \<lparr>columns = columns t,
                     rows = filter (\<lambda>r. list_all (\<lambda>(c, v). r c = Some (Text v)) (where_conditions a b))
                              (rows t)\<rparr>)"
    and "ensure_schema_compatibility fs (get_db_path filename) = (fs, Inr ())"
proof -
  have cols: "''review_date'' \<in> set (columns t)" "''source'' \<in> set (columns t)"
    "''WorksheetLabelArray'' \<in> set (columns t)"
    using assms(2) by (simp_all add: dataset_invariant_def update_columns_def)
  show "load_data_from_db fs filename a b =
           (fs, Inr \<lparr>columns = columns t,
                     rows = filter (\<lambda>r. list_all (\<lambda>(c, v). r c = Some (Text v)) (where_conditions a b))
                              (rows t)\<rparr>)"
    using assms(1) cols by (rule load_on_table)
  show "ensure_schema_compatibility fs (get_db_path filename) = (fs, Inr ())"
    using assms(1) cols(1) by (simp add: ensure_on_table)
qed

lemma apply_operation_invariant:
  assumes "fs (get_db_path filename) = Some (Issues t)" and "dataset_invariant n conf t"
  shows "\<exists>t'. apply_operation filename fs op (get_db_path filename) = Some (Issues t')
              \<and> dataset_invariant n (\<lambda>i. conf i \<or> updated_id op = Some i) t'"
proof (cases op)
  case (Query a b)
  with assms show ?thesis by (simp add: invariant_read_only)
next
  case Migrate
  with assms show ?thesis by (simp add: invariant_read_only)
next
  case (Update rid tags memo now)
  have cols: "set update_columns \<subseteq> set (columns t)"
    using assms(2) by (simp add: dataset_invariant_def)
  have "(\<lambda>i. conf i \<or> rid = i) = (\<lambda>i. conf i \<or> i = rid)" by auto
  then show ?thesis
    using Update assms(1) cols dataset_invariant_update [OF assms(2), of rid tags memo now]
    by (simp add: update_record_on_table)
qed

lemma run_invariant:
  assumes "fs (get_db_path filename) = Some (Issues t)" and "dataset_invariant n conf t"
  shows "\<exists>t'. run filename ops fs (get_db_path filename) = Some (Issues t')
              \<and> dataset_invariant n (\<lambda>i. conf i \<or> confirmed ops i) t'"
  using assms
proof (induction ops arbitrary: fs t conf)
  case Nil
  then show ?case by (simp add: run_def confirmed_def)
next
  case (Cons op ops)
  from apply_operation_invariant [where fs = fs and filename = filename and op = op, OF Cons.prems]
  obtain t1 where t1: "apply_operation filename fs op (get_db_path filename) = Some (Issues t1)"
    "dataset_invariant n (\<lambda>i. conf i \<or> updated_id op = Some i) t1" by blast
  from Cons.IH [where fs = "apply_operation filename fs op", OF t1]
  obtain t' where t': "run filename ops (apply_operation filename fs op) (get_db_path filename) = Some (Issues t')"
    "dataset_invariant n (\<lambda>i. (conf i \<or> updated_id op = Some i) \<or> confirmed ops i) t'" by blast
  have "(\<lambda>i. (conf i \<or> updated_id op = Some i) \<or> confirmed ops i) = (\<lambda>i. conf i \<or> confirmed (op # ops) i)"
    by (auto simp: confirmed_def)
  with t' show ?case by (simp add: run_def)
qed

lemma history_invariant:
  "\<exists>t. run filename ops (init_db fs0 df filename) (get_db_path filename) = Some (Issues t)
        \<and> dataset_invariant (length (rows df)) (confirmed ops) t"
  using run_invariant [of "init_db fs0 df filename" filename "prepare_frame df" "length (rows df)" "\<lambda>i. False" ops]
  by (simp add: init_db_at dataset_invariant_created)




text \<open>Every view the query returns on a created dataset has a \<^verbatim>\<open>review_date\<close> cell in each row.\<close>

lemma loaded_view_has_review_date:
  assumes "load_data_from_db (run filename ops (init_db fs0 df filename)) filename a b = (fs', Inr out)"
  shows "\<forall>r\<in>set (rows out). r ''review_date'' \<noteq> None"
proof -
  from history_invariant [of filename ops fs0 df]
  obtain t where at: "run filename ops (init_db fs0 df filename) (get_db_path filename) = Some (Issues t)"
    and inv: "dataset_invariant (length (rows df)) (confirmed ops) t"
    by blast
  have "\<forall>r\<in>set (rows t). r ''review_date'' \<noteq> None"
    using inv by (auto simp: dataset_invariant_def in_set_conv_nth)
  moreover have "set (rows out) \<subseteq> set (rows t)"
    using assms
      invariant_read_only(1) [where fs = "run filename ops (init_db fs0 df filename)"
        and filename = filename, OF at inv, of a b]
    by auto
  ultimately show ?thesis by blast
qed



lemma sample_frame_length: "length (rows sample_frame) = 2"
  by (simp add: sample_frame_def)


lemma sample_fs_at: "sample_fs (get_db_path ''demo.db'') = Some (Issues (prepare_frame sample_frame))"
  by (simp add: sample_fs_def init_db_at)





lemma ensure_required_fills:
  "c \<in> set cols \<Longrightarrow> c \<notin> set (columns df) \<Longrightarrow> k < length (rows df) \<Longrightarrow>
   (rows (ensure_required cols df) ! k) c = Some Null"
proof (induction cols arbitrary: df)
  case Nil
  then show ?case by simp
next
  case (Cons col cols)
  show ?case
  proof (cases "c = col")
    case True
    have "(rows (ensure_required cols (assign_scalar col Null df)) ! k) c
            = (rows (assign_scalar col Null df) ! k) c"
      using Cons.prems True by (intro ensure_required_keeps) (simp_all add: assign_scalar_simps)
    with Cons.prems True show ?thesis by (simp add: assign_scalar_simps)
  next
    case False
    with Cons.prems have "c \<in> set cols" by simp
    moreover have "c \<notin> set (columns (if col \<notin> set (columns df) then assign_scalar col Null df else df))"
      using Cons.prems False by (simp add: assign_scalar_simps)
    moreover have "k < length (rows (if col \<notin> set (columns df) then assign_scalar col Null df else df))"
      using Cons.prems by (simp add: assign_scalar_simps)
    ultimately show ?thesis
      using Cons.IH [of "if col \<notin> set (columns df) then assign_scalar col Null df else df"]
      by simp
  qed
qed

text \<open>
  Called on a frame that lacks a required column, \<open>init_db\<close> does not fail: lines 64-66
  add the column, null in every row, and the dataset is written.
\<close>

lemma init_db_pads_missing_columns:
  assumes "c \<in> set REQUIRED_COLUMNS" and "c \<notin> set (columns df)" and "k < length (rows df)"
  shows "\<exists>t. init_db fs df filename (get_db_path filename) = Some (Issues t)
           \<and> c \<in> set (columns t) \<and> (rows t ! k) c = Some Null"
proof -
  have "c \<notin> set (columns (review_frame df))"
    using assms(1,2) REQUIRED_COLUMNS_not_review [OF assms(1)] by (simp add: review_frame_columns)
  then have "(rows (prepare_frame df) ! k) c = Some Null"
    using assms(1,3) by (simp add: prepare_frame_def ensure_required_fills review_frame_length)
  moreover have "c \<in> set (columns (prepare_frame df))"
    using assms(1) by (simp add: prepare_frame_columns)
  ultimately show ?thesis by (simp add: init_db_at)
qed

section \<open>The claims\<close>




text \<open>
  C2. When a required column is absent from the uploaded sheet, the import shows the
  error "Missing columns: ..." listing exactly the absent required columns, in the
  order of \<^verbatim>\<open>REQUIRED_COLUMNS\<close>, and writes nothing, whether or not the button is
  pressed. (\<open>init_db\<close> itself would pad an absent column with nulls; the handler never
  calls it on such a sheet.)
\<close>

theorem import_rejects_missing_columns:
  assumes "\<exists>c\<in>set REQUIRED_COLUMNS. c \<notin> set (columns df)"
  shows "import_upload fs uploaded_name df pressed timestamp =
           (fs, Some (St_error (''Missing columns: '' @ join '', '' (missing_cols df))))
         \<and> missing_cols df \<noteq> []
         \<and> set (missing_cols df) = set REQUIRED_COLUMNS - set (columns df)
         \<and> missing_cols df = filter (\<lambda>c. c \<notin> set (columns df)) REQUIRED_COLUMNS"
proof -
  have ne: "missing_cols df \<noteq> []"
    using assms by (auto simp: missing_cols_def filter_empty_conv)
  then show ?thesis
    by (auto simp: import_upload_def missing_cols_def)
qed

theorem import_rejects_missing_columns_witness:
  "import_upload Map.empty ''sheet.xlsx'' short_frame True ''20250301_100000'' =
     (Map.empty,
      Some (St_error ''Missing columns: StakeholderTypeArray, WorksheetLabelArray, IssueTag2, IssueTag3, IssueTag4, IssueTag5, IssueTag6, IssueTag7, IssueTag8''))"
proof -
  have h: "\<exists>c\<in>set REQUIRED_COLUMNS. c \<notin> set (columns short_frame)"
    by (simp add: REQUIRED_COLUMNS_def short_frame_def)
  have "missing_cols short_frame =
      [''StakeholderTypeArray'', ''WorksheetLabelArray'', ''IssueTag2'', ''IssueTag3'',
       ''IssueTag4'', ''IssueTag5'', ''IssueTag6'', ''IssueTag7'', ''IssueTag8'']"
    by (simp add: missing_cols_def REQUIRED_COLUMNS_def short_frame_def)
  with import_rejects_missing_columns [OF h, of Map.empty "''sheet.xlsx''" True "''20250301_100000''"]
  show ?thesis by simp
qed







text \<open>
  C6. On a view whose rows all have a \<^verbatim>\<open>review_date\<close> cell, \<^verbatim>\<open>next_unreviewed\<close> from index
  \<open>i\<close> moves to the first index after \<open>i\<close> whose \<^verbatim>\<open>review_date\<close> is null, when there is
  one, and shows no message; otherwise the index stays \<open>i\<close> and the message "No more
  unreviewed records found below this point." is shown. The new index is never at or
  before \<open>i\<close>: the scan does not wrap.
\<close>

theorem next_unreviewed_scans_forward:
  assumes "\<forall>r\<in>set (rows df). r ''review_date'' \<noteq> None"
  shows "if \<exists>j. i < j \<and> j < length (rows df) \<and> (rows df ! j) ''review_date'' = Some Null
         then \<exists>j. next_unreviewed df i = Inr (j, None) \<and> i < j \<and> j < length (rows df)
                \<and> (rows df ! j) ''review_date'' = Some Null
                \<and> (\<forall>k. i < k \<and> k < j \<longrightarrow> (rows df ! k) ''review_date'' \<noteq> Some Null)
         else next_unreviewed df i =
                Inr (i, Some ''No more unreviewed records found below this point.'')"
proof -
  from next_unreviewed_scan_spec [OF assms, of "i + 1"]
  consider (found) j where "next_unreviewed_scan df (i + 1) = Inr (Some j)" "i + 1 \<le> j"
      "j < length (rows df)" "(rows df ! j) ''review_date'' = Some Null"
      "\<forall>k. i + 1 \<le> k \<and> k < j \<longrightarrow> (rows df ! k) ''review_date'' \<noteq> Some Null"
    | (none) "next_unreviewed_scan df (i + 1) = Inr None"
      "\<forall>k. i + 1 \<le> k \<and> k < length (rows df) \<longrightarrow> (rows df ! k) ''review_date'' \<noteq> Some Null"
    by blast
  then show ?thesis
  proof cases
    case found
    then have "next_unreviewed df i = Inr (j, None)" by (simp add: next_unreviewed_def)
    moreover have "\<exists>j. i < j \<and> j < length (rows df) \<and> (rows df ! j) ''review_date'' = Some Null"
      using found by (intro exI [of _ j]) simp
    ultimately show ?thesis using found by (simp add: Suc_le_eq) 
  next
    case none
    then have "next_unreviewed df i = Inr (i, Some ''No more unreviewed records found below this point.'')"
      by (simp add: next_unreviewed_def)
    moreover have "\<not> (\<exists>j. i < j \<and> j < length (rows df) \<and> (rows df ! j) ''review_date'' = Some Null)"
      using none by (simp add: Suc_le_eq)
    ultimately show ?thesis by simp
  qed
qed

theorem next_unreviewed_scans_forward_witness:
  "next_unreviewed review_view 2 = Inr (4, None)
   \<and> next_unreviewed review_view 4 =
       Inr (4, Some ''No more unreviewed records found below this point.'')"
proof -
  have h: "\<forall>r\<in>set (rows review_view). r ''review_date'' \<noteq> None"
    by (simp add: review_view_def)
  have len: "length (rows review_view) = 5" by (simp add: review_view_def)
  have r3: "(rows review_view ! 3) ''review_date'' \<noteq> Some Null"
    and r4: "(rows review_view ! 4) ''review_date'' = Some Null"
    by (simp_all add: review_view_def)
  have ex: "\<exists>j. 2 < j \<and> j < length (rows review_view) \<and> (rows review_view ! j) ''review_date'' = Some Null"
    using r4 len by (intro exI [of _ 4]) simp
  from next_unreviewed_scans_forward [OF h, of 2] ex
  obtain j where j: "next_unreviewed review_view 2 = Inr (j, None)" "2 < j" "j < 5"
    "(rows review_view ! j) ''review_date'' = Some Null"
    unfolding len by (auto split: if_splits)
  from j(2,3) have "j = 3 \<or> j = 4" by arith
  with j(4) r3 have "j = 4" by auto
  with j(1) have first: "next_unreviewed review_view 2 = Inr (4, None)" by simp
  have "\<not> (\<exists>j. 4 < j \<and> j < length (rows review_view) \<and> (rows review_view ! j) ''review_date'' = Some Null)"
    unfolding len by auto
  with next_unreviewed_scans_forward [OF h, of 4]
  have "next_unreviewed review_view 4 =
       Inr (4, Some ''No more unreviewed records found below this point.'')"
    by (simp only: if_False)
  with first show ?thesis by simp
qed







text \<open>
  C10. A filter component equal to "All" or to the empty string is read as no filter:
  the query returns what it returns for \<^verbatim>\<open>None\<close>. Hence whenever a query returns a row
  whose \<^verbatim>\<open>source\<close> (or label) is literally "All" or empty, that component was not
  filtering, and the result is the one of the query without it.
\<close>

theorem all_is_the_no_filter_sentinel:
  "load_data_from_db fs filename (Some ''All'') b = load_data_from_db fs filename None b
   \<and> load_data_from_db fs filename (Some []) b = load_data_from_db fs filename None b
   \<and> load_data_from_db fs filename a (Some ''All'') = load_data_from_db fs filename a None
   \<and> load_data_from_db fs filename a (Some []) = load_data_from_db fs filename a None
   \<and> (\<forall>fs' out r. load_data_from_db fs filename a b = (fs', Inr out) \<and> r \<in> set (rows out)
         \<and> (r ''source'' = Some (Text ''All'') \<or> r ''source'' = Some (Text []))
        \<longrightarrow> load_data_from_db fs filename a b = load_data_from_db fs filename None b)
   \<and> (\<forall>fs' out r. load_data_from_db fs filename a b = (fs', Inr out) \<and> r \<in> set (rows out)
         \<and> (r ''WorksheetLabelArray'' = Some (Text ''All'') \<or> r ''WorksheetLabelArray'' = Some (Text []))
        \<longrightarrow> load_data_from_db fs filename a b = load_data_from_db fs filename a None)"
proof -
  have src: "load_data_from_db fs filename a b = load_data_from_db fs filename None b"
    if "load_data_from_db fs filename a b = (fs', Inr out)" "r \<in> set (rows out)"
       "r ''source'' = Some (Text ''All'') \<or> r ''source'' = Some (Text [])" for fs' out r
  proof -
    have "filter_param a = None"
    proof (cases "filter_param a")
      case (Some v)
      then have "r ''source'' = Some (Text v)" and "v \<noteq> []" and "v \<noteq> ''All''"
        using load_result_rows [OF that(1,2)] filter_param_Some [OF Some]
        by (simp_all add: where_conditions_def)
      with that(3) show ?thesis by auto
    qed simp
    then have "where_conditions a b = where_conditions None b"
      by (simp add: where_conditions_def)
    then show ?thesis by (rule load_depends_on_conditions)
  qed
  have lbl: "load_data_from_db fs filename a b = load_data_from_db fs filename a None"
    if "load_data_from_db fs filename a b = (fs', Inr out)" "r \<in> set (rows out)"
       "r ''WorksheetLabelArray'' = Some (Text ''All'') \<or> r ''WorksheetLabelArray'' = Some (Text [])"
    for fs' out r
  proof -
    have "filter_param b = None"
    proof (cases "filter_param b")
      case (Some v)
      then have "r ''WorksheetLabelArray'' = Some (Text v)" and "v \<noteq> []" and "v \<noteq> ''All''"
        using load_result_rows [OF that(1,2)] filter_param_Some [OF Some]
        by (simp_all add: where_conditions_def)
      with that(3) show ?thesis by auto
    qed simp
    then have "where_conditions a b = where_conditions a None"
      by (simp add: where_conditions_def)
    then show ?thesis by (rule load_depends_on_conditions)
  qed
  have sentinels:
    "load_data_from_db fs filename (Some ''All'') b = load_data_from_db fs filename None b"
    "load_data_from_db fs filename (Some []) b = load_data_from_db fs filename None b"
    "load_data_from_db fs filename a (Some ''All'') = load_data_from_db fs filename a None"
    "load_data_from_db fs filename a (Some []) = load_data_from_db fs filename a None"
    by (rule load_depends_on_conditions, rule where_conditions_All)+
  from sentinels src lbl show ?thesis by blast
qed

theorem all_is_the_no_filter_sentinel_witness:
  "\<exists>out. load_data_from_db sample_fs ''demo.db'' (Some ''All'') None = (sample_fs, Inr out)
      \<and> length (rows out) = 2
      \<and> (rows out ! 0) ''source'' = Some (Text ''All'')
      \<and> (rows out ! 1) ''source'' = Some (Text ''Email'')
      \<and> load_data_from_db sample_fs ''demo.db'' (Some ''All'') None
          = load_data_from_db sample_fs ''demo.db'' None None"
proof -
  have cols: "''review_date'' \<in> set (columns (prepare_frame sample_frame))"
    "''source'' \<in> set (columns (prepare_frame sample_frame))"
    "''WorksheetLabelArray'' \<in> set (columns (prepare_frame sample_frame))"
    by (simp_all add: prepare_frame_columns REQUIRED_COLUMNS_def)
  define out where "out = \<lparr>columns = columns (prepare_frame sample_frame),
    rows = rows (prepare_frame sample_frame)\<rparr>"
  have load: "load_data_from_db sample_fs ''demo.db'' (Some ''All'') None = (sample_fs, Inr out)"
    using load_on_table [where fs = sample_fs and filename = "''demo.db''", OF sample_fs_at cols,
        of "Some ''All''" None]
    by (simp add: where_conditions_def out_def)
  have len: "length (rows out) = 2"
    by (simp add: out_def prepare_frame_length sample_frame_length)
  have "(rows (prepare_frame sample_frame) ! 0) ''source'' = (rows sample_frame ! 0) ''source''"
    "(rows (prepare_frame sample_frame) ! 1) ''source'' = (rows sample_frame ! 1) ''source''"
    by (rule prepare_frame_input_cells; simp add: sample_frame_def REQUIRED_COLUMNS_def)+
  then have src: "(rows out ! 0) ''source'' = Some (Text ''All'')"
    "(rows out ! 1) ''source'' = Some (Text ''Email'')"
    by (simp_all add: out_def sample_frame_def sample_row_def)
  have mem: "rows out ! 0 \<in> set (rows out)" using len by simp
  from all_is_the_no_filter_sentinel
    [where fs = sample_fs and filename = "''demo.db''" and a = "Some ''All''" and b = None]
  have "\<forall>fs' out r. load_data_from_db sample_fs ''demo.db'' (Some ''All'') None = (fs', Inr out)
          \<and> r \<in> set (rows out)
          \<and> (r ''source'' = Some (Text ''All'') \<or> r ''source'' = Some (Text []))
         \<longrightarrow> load_data_from_db sample_fs ''demo.db'' (Some ''All'') None
               = load_data_from_db sample_fs ''demo.db'' None None"
    by blast
  with load mem src(1) have "load_data_from_db sample_fs ''demo.db'' (Some ''All'') None
               = load_data_from_db sample_fs ''demo.db'' None None"
    by blast
  with load len src show ?thesis by blast
qed

end
